theory Spec2Isabelle
  imports Main "HOL-Library.AList" "HOL-Library.Sublist"
begin

section \<open>Strings of the source language\<close>

text \<open>
  The program is TypeScript. A source string is modelled by \<open>string\<close>; a \<open>char\<close> stands
  for the UTF-16 code unit with the same number, so the model covers the strings whose
  code units lie in U+0000..U+00FF. (Compliance statuses are the exception: they are
  kept as sequences of code units of any value, see below.) The literals of the source that are written in
  Japanese are outside that range; each of them is a named constant below that carries
  an English rendering of the literal, and only its identity and its non-emptiness are
  used.
\<close>

definition isWhiteSpace :: "char \<Rightarrow> bool" where
  \<comment> \<open>WhiteSpace and LineTerminator of ECMAScript, below U+0100: TAB, LF, VT, FF, CR, SP, NBSP.\<close>
  "isWhiteSpace c = (of_char c \<in> {9, 10, 11, 12, 13, 32, 160 :: nat})"

definition trim :: "string \<Rightarrow> string" where
  \<comment> \<open>\<open>String.prototype.trim\<close>: drops leading and trailing white space.\<close>
  "trim s = rev (dropWhile isWhiteSpace (rev (dropWhile isWhiteSpace s)))"

definition toLowerChar :: "char \<Rightarrow> char" where
  \<comment> \<open>Unicode lower-case mapping below U+0100: A..Z, and U+00C0..U+00DE without U+00D7.\<close>
  "toLowerChar c =
     (let n = (of_char c :: nat)
      in if (65 \<le> n \<and> n \<le> 90) \<or> (192 \<le> n \<and> n \<le> 222 \<and> n \<noteq> 215)
         then char_of (n + 32) else c)"

definition toLowerCase :: "string \<Rightarrow> string" where
  "toLowerCase s = map toLowerChar s"

fun split :: "char \<Rightarrow> string \<Rightarrow> string list" where
  \<comment> \<open>\<open>s.split(d)\<close> for a one-character separator; never returns the empty array.\<close>
  "split d [] = [[]]"
| "split d (c # cs) =
     (if c = d then [] # split d cs
      else (case split d cs of
              [] \<Rightarrow> [[c]]
            | seg # segs \<Rightarrow> (c # seg) # segs))"

definition pop :: "'a list \<Rightarrow> 'a option" where
  \<comment> \<open>\<open>Array.prototype.pop\<close>, its result only: \<open>undefined\<close> on the empty array.\<close>
  "pop xs = (if xs = [] then None else Some (last xs))"

fun join :: "string \<Rightarrow> string list \<Rightarrow> string" where
  "join sep [] = []"
| "join sep [x] = x"
| "join sep (x # y # ys) = x @ sep @ join sep (y # ys)"

fun decimal :: "nat \<Rightarrow> string" where
  \<comment> \<open>The decimal digits of a non-negative integer, as a template literal prints it.\<close>
  "decimal n =
     (if n < 10 then [char_of (48 + n)]
      else decimal (n div 10) @ [char_of (48 + n mod 10)])"

declare decimal.simps [simp del]

section \<open>Upload validation (DifyFileUpload)\<close>

record File =
  file_name :: string

definition supportedFormats :: "string list" where
  "supportedFormats = [''png'', ''jpg'', ''jpeg'', ''webp'', ''gif'', ''pdf'']"

definition unsupportedFormatText :: string where
  \<comment> \<open>Rendering of the Japanese text that opens the rejection message of \<open>validateFile\<close>.\<close>
  "unsupportedFormatText = ''Unsupported file format. Supported formats: ''"

definition validateFile :: "File \<Rightarrow> string option" where
  \<comment> \<open>\<open>None\<close> is the source's \<open>null\<close> (the file is accepted), \<open>Some m\<close> the rejection message.\<close>
  "validateFile file =
     (let extension = map_option toLowerCase (pop (split (CHR ''.'') (file_name file)))
      in if extension = None \<or> extension = Some [] \<or>
            the extension \<notin> set supportedFormats
         then Some (unsupportedFormatText @ join '', '' supportedFormats)
         else None)"

section \<open>Compliance statistics (DifyResultDisplay)\<close>

text \<open>
  A compliance status is only ever compared and used as a property key, never taken
  apart, so it is kept as its full sequence of UTF-16 code units. Two of the three
  symbols that the interface \<open>Assessment\<close> declares lie above U+00FF.
\<close>

type_synonym code_units = "nat list"

definition units :: "string \<Rightarrow> code_units" where
  \<comment> \<open>The code units of a text written with characters below U+0100.\<close>
  "units s = map of_char s"

definition statusCompliant :: code_units where
  \<comment> \<open>The first declared symbol, WHITE CIRCLE.\<close>
  "statusCompliant = [0x25CB]"

definition statusPartial :: code_units where
  \<comment> \<open>The second declared symbol, WHITE UP-POINTING TRIANGLE.\<close>
  "statusPartial = [0x25B3]"

definition statusNonCompliant :: code_units where
  \<comment> \<open>The third declared symbol, MULTIPLICATION SIGN.\<close>
  "statusNonCompliant = [0xD7]"

record Assessment =
  compliance_status :: code_units
  reasoning :: string
  alternative_solution :: "string option"
  reference_source :: "string option"
  assessment_type :: "string option"

record JudgementItem =
  original_item :: string
  assessment :: Assessment

text \<open>
  The accumulator of \<open>complianceStats\<close> is the object literal \<open>{}\<close>: an ordinary object
  whose prototype is \<open>Object.prototype\<close>. Reading \<open>acc[k]\<close> finds an own property first and
  an inherited one otherwise, so the model keeps the own properties apart from the fixed
  table of inherited names. The own properties are an association list in the order of
  their creation; \<open>objectEntries\<close> below gives the order in which they are enumerated.

  An own property holds either a number or a text. A text arises only from
  \<open>(acc[k] || 0) + 1\<close> when \<open>acc[k]\<close> is an inherited function: \<open>+\<close> then concatenates the
  function's source text with \<open>1\<close>. The source text is engine-defined, so the model records
  only how many \<open>1\<close>s have been appended to it.
\<close>

datatype jsval =
    Num nat
  | FunctionText nat

type_synonym props = "(code_units \<times> jsval) list"

definition objectPrototypeFunctions :: "code_units list" where
  \<comment> \<open>The function-valued properties of \<open>Object.prototype\<close> (ECMAScript 20.1.3 and B.2.2).\<close>
  "objectPrototypeFunctions =
     map units
       [''constructor'', ''hasOwnProperty'', ''isPrototypeOf'', ''propertyIsEnumerable'',
        ''toLocaleString'', ''toString'', ''valueOf'',
        ''__defineGetter__'', ''__defineSetter__'', ''__lookupGetter__'',
        ''__lookupSetter__'']"

definition objectPrototypeNames :: "code_units list" where
  \<comment> \<open>All inherited names: the functions and the accessor \<open>__proto__\<close>.\<close>
  "objectPrototypeNames = units ''__proto__'' # objectPrototypeFunctions"

definition countStatus :: "props \<Rightarrow> code_units \<Rightarrow> props" where
  \<comment> \<open>One call of the reducer: \<open>acc[k] = (acc[k] || 0) + 1; return acc\<close>.\<close>
  "countStatus acc k =
     (case map_of acc k of
        Some (Num n) \<Rightarrow> AList.update k (Num (n + 1)) acc
      | Some (FunctionText m) \<Rightarrow> AList.update k (FunctionText (m + 1)) acc
      | None \<Rightarrow>
          if k = units ''__proto__'' then acc
          else if k \<in> set objectPrototypeFunctions then AList.update k (FunctionText 1) acc
          else AList.update k (Num 1) acc)"

text \<open>
  The three cases without an own property: \<open>acc.__proto__\<close> reads the prototype object,
  \<open>+ 1\<close> makes a text of it, and the inherited setter ignores a value that is neither an
  object nor \<open>null\<close>, so nothing is stored; an inherited function is truthy and gives a text,
  stored as a new own property; any other name reads \<open>undefined\<close> and stores \<open>0 + 1\<close>.
\<close>

definition complianceStats :: "JudgementItem list \<Rightarrow> props" where
  "complianceStats judgement =
     foldl (\<lambda>acc item. countStatus acc (compliance_status (assessment item))) [] judgement"

definition countOf :: "jsval \<Rightarrow> nat" where
  \<comment> \<open>The number an entry contributes to a sum of counts; a text is not a count.\<close>
  "countOf v = (case v of Num n \<Rightarrow> n | FunctionText _ \<Rightarrow> 0)"

definition totalCount :: "props \<Rightarrow> nat" where
  "totalCount acc = sum_list (map (countOf \<circ> snd) acc)"

text \<open>
  \<open>Object.entries\<close> enumerates the own properties whose key is an array index first, in
  ascending numeric order, and the others after them in the order of their creation. An
  array index is the decimal numeral, without superfluous leading zero, of an integer
  below 4294967295.
\<close>

definition digitsValue :: "code_units \<Rightarrow> nat" where
  "digitsValue k = foldl (\<lambda>a d. 10 * a + (d - 48)) 0 k"

definition isArrayIndex :: "code_units \<Rightarrow> bool" where
  "isArrayIndex k =
     (k \<noteq> [] \<and> list_all (\<lambda>d. 48 \<le> d \<and> d \<le> 57) k \<and>
      (if length k = 1 then True else hd k \<noteq> 48) \<and>
      digitsValue k < 4294967295)"

definition objectEntries :: "props \<Rightarrow> props" where
  "objectEntries acc =
     sort_key (\<lambda>entry. digitsValue (fst entry)) (filter (\<lambda>entry. isArrayIndex (fst entry)) acc)
     @ filter (\<lambda>entry. \<not> isArrayIndex (fst entry)) acc"

text \<open>
  The percentage shown beside each entry is \<open>Math.round((count / judgement.length) * 100)\<close>,
  computed in double precision. The model keeps a finite result symbolic, as the pair it
  is computed from, and makes the two results of a zero divisor and the result of a
  non-numeric count explicit.
\<close>

datatype percent =
    Rounded nat nat
  | NaN
  | PosInfinity

definition percentage :: "jsval \<Rightarrow> nat \<Rightarrow> percent" where
  "percentage count len =
     (case count of
        Num c \<Rightarrow> if len = 0 then (if c = 0 then NaN else PosInfinity) else Rounded c len
      | FunctionText _ \<Rightarrow> NaN)"

definition percentageView ::
  "JudgementItem list \<Rightarrow> (code_units \<times> jsval \<times> percent) list" where
  \<comment> \<open>\<open>Object.entries(complianceStats).map(...)\<close>: one row per own property.\<close>
  "percentageView judgement =
     map (\<lambda>(status, count). (status, count, percentage count (length judgement)))
       (objectEntries (complianceStats judgement))"

definition tally :: "code_units list \<Rightarrow> props" where
  \<comment> \<open>The reduction over the status values alone; \<open>complianceStats\<close> is \<open>tally\<close> of the statuses.\<close>
  "tally ks = foldl countStatus [] ks"

definition statuses :: "JudgementItem list \<Rightarrow> code_units list" where
  "statuses judgement = map (\<lambda>item. compliance_status (assessment item)) judgement"

section \<open>The demo page: uploads, workflow runs and the error slot (DifyFileUploadDemo)\<close>

subsection \<open>Data\<close>

text \<open>
  The fields of the two interfaces keep their names behind a prefix (\<open>upload_\<close>, \<open>wf_\<close>):
  both interfaces have an \<open>id\<close> and a \<open>created_at\<close>, and \<open>id\<close> and \<open>size\<close> are constants of HOL.
\<close>

record UploadResult =
  upload_id :: string
  upload_name :: string
  upload_size :: nat
  upload_extension :: string
  upload_mime_type :: string
  upload_created_by :: string
  upload_created_at :: nat
  upload_file :: "File option"

datatype json =
    JNull
  | JBool bool
  | JNum int
  | JStr string
  | JArr "json list"
  | JObj "(string \<times> json) list"

text \<open>
  A parsed response body. Numbers are integers here: the page only tests a number for
  being zero. A \<open>JObj\<close> lists the own properties of the parsed object.
\<close>

fun getProp :: "json \<Rightarrow> string \<Rightarrow> json option" where
  \<comment> \<open>\<open>v.k\<close> for a name that no prototype defines (\<open>workflow_run_id\<close>, \<open>status\<close>);
      \<open>None\<close> is \<open>undefined\<close>. Reading a property of \<open>null\<close> throws and is handled by the caller.\<close>
  "getProp (JObj kvs) k = map_of kvs k"
| "getProp _ k = None"

fun truthy :: "json \<Rightarrow> bool" where
  "truthy JNull = False"
| "truthy (JBool b) = b"
| "truthy (JNum n) = (n \<noteq> 0)"
| "truthy (JStr s) = (s \<noteq> [])"
| "truthy (JArr _) = True"
| "truthy (JObj _) = True"

datatype run_status = Running | Completed | Failed

record WorkflowResult =
  wf_id :: json
  wf_file_id :: string
  wf_status :: run_status
  wf_result :: "json option"
  wf_created_at :: nat
  wf_error :: "string option"

text \<open>
  \<open>wf_id\<close> is a \<open>json\<close> value because the page stores \<open>result.workflow_run_id\<close> as it
  arrives whenever it is truthy; the identities the page makes up itself are \<open>JStr\<close>.
\<close>

record DemoState =
  apiKey :: string
  workflowApiKey :: string
  userId :: string
  uploadResults :: "UploadResult list"
  workflowResults :: "WorkflowResult list"
  error :: "string option"
  executingWorkflows :: "string set"

definition initialState :: DemoState where
  "initialState =
     \<lparr>apiKey = [], workflowApiKey = [], userId = ''user-123'', uploadResults = [],
      workflowResults = [], error = None, executingWorkflows = {}\<rparr>"

subsection \<open>Messages\<close>

definition missingWorkflowKeyText :: string where
  \<comment> \<open>Rendering of the Japanese literal that asks for the workflow API key.\<close>
  "missingWorkflowKeyText = ''Please enter the API key for the workflow''"

definition fileNotFoundText :: string where
  \<comment> \<open>Rendering of the Japanese literal "the file is not found".\<close>
  "fileNotFoundText = ''File not found''"

definition workflowFailedText :: string where
  \<comment> \<open>Rendering of the Japanese text that opens the message for a response that is not ok.\<close>
  "workflowFailedText = ''Workflow execution failed: ''"

definition detailText :: string where
  \<comment> \<open>Rendering of the Japanese label before the response body in that message.\<close>
  "detailText = ''Details: ''"

definition workflowErrorText :: string where
  \<comment> \<open>Rendering of the Japanese fallback message for a thrown value that is no \<open>Error\<close>.\<close>
  "workflowErrorText = ''A workflow execution error occurred''"

definition nullPropertyText :: string where
  \<comment> \<open>The message of the \<open>TypeError\<close> for \<open>null.workflow_run_id\<close>; engine-defined, after V8's wording.\<close>
  "nullPropertyText = ''Cannot read properties of null (reading workflow_run_id)''"

subsection \<open>Uploads\<close>

definition handleUploadSuccess :: "UploadResult \<Rightarrow> File \<Rightarrow> DemoState \<Rightarrow> DemoState" where
  "handleUploadSuccess result file s =
     s\<lparr>uploadResults := result\<lparr>upload_file := Some file\<rparr> # uploadResults s,
       error := None\<rparr>"

definition handleUploadError :: "string \<Rightarrow> DemoState \<Rightarrow> DemoState" where
  "handleUploadError errorMessage s = s\<lparr>error := Some errorMessage\<rparr>"

subsection \<open>Running a workflow\<close>

text \<open>
  \<open>executeWorkflow\<close> is an asynchronous function with one suspension that matters: the
  \<open>fetch\<close> call. \<open>executeWorkflow_start\<close> is the part that runs when the function is
  called, up to the \<open>fetch\<close>; it returns the new state and the request it has issued, if
  any. \<open>executeWorkflow_settle\<close> is the part that runs once the gateway has answered; it
  is applied to the state of that later moment, as the updater functions of the source are.
  The workflow key, the user and the uploads that a call reads are those of the state in
  which it is called: a handler belongs to the latest rendering of the page.
\<close>

record FetchRequest =
  authorization :: string
  upload_file_id :: string
  request_user :: string

definition executeWorkflow_start ::
  "string \<Rightarrow> DemoState \<Rightarrow> DemoState \<times> FetchRequest option" where
  "executeWorkflow_start fileId s =
     (if trim (workflowApiKey s) = [] then (s\<lparr>error := Some missingWorkflowKeyText\<rparr>, None)
      else
        (case find (\<lambda>result. upload_id result = fileId) (uploadResults s) of
           None \<Rightarrow> (s\<lparr>error := Some fileNotFoundText\<rparr>, None)
         | Some uploadResult \<Rightarrow>
             (case upload_file uploadResult of
                None \<Rightarrow> (s\<lparr>error := Some fileNotFoundText\<rparr>, None)
              | Some file \<Rightarrow>
                  (s\<lparr>executingWorkflows := insert fileId (executingWorkflows s),
                     error := None\<rparr>,
                   Some \<lparr>authorization = ''Bearer '' @ workflowApiKey s,
                         upload_file_id = fileId,
                         request_user = userId s\<rparr>))))"

datatype thrown =
    ErrorObject string
  | OtherValue

text \<open>
  What the gateway call can come to: \<open>fetch\<close> rejects; the response is not ok (with its
  status, its status text, and the outcome of reading its body as text); the response is
  ok and \<open>response.json()\<close> rejects; or the body is parsed. An \<open>ErrorObject\<close> carries the
  \<open>message\<close> of the \<open>Error\<close> that the runtime raised.
\<close>

datatype gateway_outcome =
    FetchRejected thrown
  | NotOk nat string "thrown + string"
  | JsonRejected thrown
  | Parsed json

fun tryBlock :: "string \<Rightarrow> nat \<Rightarrow> nat \<Rightarrow> gateway_outcome \<Rightarrow> thrown + WorkflowResult" where
  \<comment> \<open>The \<open>try\<close> block after the \<open>fetch\<close>: \<open>Inl\<close> is the value it throws, \<open>Inr\<close> the record it
      builds. \<open>now_id\<close> and \<open>now_created\<close> are the two readings of \<open>Date.now()\<close>.\<close>
  "tryBlock fileId now_id now_created (FetchRejected e) = Inl e"
| "tryBlock fileId now_id now_created (NotOk status statusText (Inl e)) = Inl e"
| "tryBlock fileId now_id now_created (NotOk status statusText (Inr errorText)) =
     Inl (ErrorObject (workflowFailedText @ decimal status @ '' '' @ statusText
                       @ [CHR 0x0A] @ detailText @ errorText))"
| "tryBlock fileId now_id now_created (JsonRejected e) = Inl e"
| "tryBlock fileId now_id now_created (Parsed JNull) = Inl (ErrorObject nullPropertyText)"
| "tryBlock fileId now_id now_created (Parsed result) =
     Inr \<lparr>wf_id = (case getProp result ''workflow_run_id'' of
                     None \<Rightarrow> JStr (''workflow_'' @ decimal now_id)
                   | Some v \<Rightarrow> if truthy v then v else JStr (''workflow_'' @ decimal now_id)),
          wf_file_id = fileId,
          wf_status = Completed,
          wf_result = Some result,
          wf_created_at = now_created div 1000,
          wf_error = None\<rparr>"


definition thrownMessage :: "thrown \<Rightarrow> string" where
  \<comment> \<open>\<open>error instanceof Error ? error.message : <fallback>\<close>\<close>
  "thrownMessage e = (case e of ErrorObject m \<Rightarrow> m | OtherValue \<Rightarrow> workflowErrorText)"

definition executeWorkflow_settle ::
  "string \<Rightarrow> nat \<Rightarrow> nat \<Rightarrow> gateway_outcome \<Rightarrow> DemoState \<Rightarrow> DemoState" where
  "executeWorkflow_settle fileId now_id now_created outcome s =
     (case tryBlock fileId now_id now_created outcome of
        Inr workflowResult \<Rightarrow>
          s\<lparr>workflowResults := workflowResult # workflowResults s,
            executingWorkflows := executingWorkflows s - {fileId}\<rparr>
      | Inl e \<Rightarrow>
          s\<lparr>error := Some (thrownMessage e),
            workflowResults :=
              \<lparr>wf_id = JStr (''failed_'' @ decimal now_id),
               wf_file_id = fileId,
               wf_status = Failed,
               wf_result = None,
               wf_created_at = now_created div 1000,
               wf_error = Some (thrownMessage e)\<rparr> # workflowResults s,
            executingWorkflows := executingWorkflows s - {fileId}\<rparr>)"

definition executeWorkflow ::
  "string \<Rightarrow> nat \<Rightarrow> nat \<Rightarrow> gateway_outcome \<Rightarrow> DemoState \<Rightarrow> DemoState" where
  \<comment> \<open>A whole call during which nothing else happens on the page.\<close>
  "executeWorkflow fileId now_id now_created outcome s =
     (case executeWorkflow_start fileId s of
        (s', None) \<Rightarrow> s'
      | (s', Some request) \<Rightarrow> executeWorkflow_settle fileId now_id now_created outcome s')"

definition getWorkflowResultForFile :: "DemoState \<Rightarrow> string \<Rightarrow> WorkflowResult option" where
  "getWorkflowResultForFile s fileId =
     find (\<lambda>result. wf_file_id result = fileId) (workflowResults s)"

subsection \<open>The action cell of an upload row\<close>

datatype action_cell =
    ExecutingDisabled
  | CompletedChip
  | FailedChipWithRetry
  | RunButton

definition actionCell :: "DemoState \<Rightarrow> string \<Rightarrow> action_cell" where
  "actionCell s fileId =
     (if fileId \<in> executingWorkflows s then ExecutingDisabled
      else
        (case getWorkflowResultForFile s fileId of
           None \<Rightarrow> RunButton
         | Some workflowResult \<Rightarrow>
             if wf_status workflowResult = Completed then CompletedChip
             else if wf_status workflowResult = Failed then FailedChipWithRetry
             else RunButton))"

definition offersExecute :: "action_cell \<Rightarrow> bool" where
  \<comment> \<open>Whether the cell holds a button whose click handler calls \<open>executeWorkflow\<close>.\<close>
  "offersExecute cell = (cell = FailedChipWithRetry \<or> cell = RunButton)"

subsection \<open>Everything that changes the page's state\<close>

datatype event =
    ChangeApiKey string
  | ChangeWorkflowApiKey string
  | ChangeUserId string
  | UploadSucceeded UploadResult File
  | UploadFailed string
  | ExecuteCalled string
  | GatewaySettled string nat nat gateway_outcome
  | AlertClosed

fun step :: "event \<Rightarrow> DemoState \<Rightarrow> DemoState" where
  "step (ChangeApiKey v) s = s\<lparr>apiKey := v\<rparr>"
| "step (ChangeWorkflowApiKey v) s = s\<lparr>workflowApiKey := v\<rparr>"
| "step (ChangeUserId v) s = s\<lparr>userId := v\<rparr>"
| "step (UploadSucceeded result file) s = handleUploadSuccess result file s"
| "step (UploadFailed errorMessage) s = handleUploadError errorMessage s"
| "step (ExecuteCalled fileId) s = fst (executeWorkflow_start fileId s)"
| "step (GatewaySettled fileId now_id now_created outcome) s =
     executeWorkflow_settle fileId now_id now_created outcome s"
| "step AlertClosed s = s\<lparr>error := None\<rparr>"

definition run :: "event list \<Rightarrow> DemoState \<Rightarrow> DemoState" where
  \<comment> \<open>The events in the order they happen.\<close>
  "run events s = foldl (\<lambda>s e. step e s) s events"

subsection \<open>The page as its user drives it\<close>

text \<open>
  On the rendered page \<open>executeWorkflow\<close> is reached only through a button of the action
  cell of an upload row, and the gateway answers only a request that has been issued and
  not answered yet. \<open>pageStep\<close> is \<open>step\<close> under these two conditions; \<open>inFlight\<close> is a
  ghost list of the requests issued and not yet answered, one file identity for each.
\<close>

record Page =
  page_state :: DemoState
  inFlight :: "string list"

definition initialPage :: Page where
  "initialPage = \<lparr>page_state = initialState, inFlight = []\<rparr>"

definition rowRendered :: "DemoState \<Rightarrow> string \<Rightarrow> bool" where
  "rowRendered s fileId = (fileId \<in> upload_id ` set (uploadResults s))"

definition pageStep :: "event \<Rightarrow> Page \<Rightarrow> Page" where
  "pageStep e p =
     (case e of
        ExecuteCalled fileId \<Rightarrow>
          if rowRendered (page_state p) fileId \<and>
             offersExecute (actionCell (page_state p) fileId)
          then (case executeWorkflow_start fileId (page_state p) of
                  (s', None) \<Rightarrow> p\<lparr>page_state := s'\<rparr>
                | (s', Some request) \<Rightarrow>
                    \<lparr>page_state = s', inFlight = upload_file_id request # inFlight p\<rparr>)
          else p
      | GatewaySettled fileId now_id now_created outcome \<Rightarrow>
          if fileId \<in> set (inFlight p)
          then \<lparr>page_state =
                  executeWorkflow_settle fileId now_id now_created outcome (page_state p),
                inFlight = remove1 fileId (inFlight p)\<rparr>
          else p
      | _ \<Rightarrow> p\<lparr>page_state := step e (page_state p)\<rparr>)"

definition pageRun :: "event list \<Rightarrow> Page \<Rightarrow> Page" where
  "pageRun events p = foldl (\<lambda>p e. pageStep e p) p events"

definition pageInvariant :: "Page \<Rightarrow> bool" where
  \<comment> \<open>No file identity is in flight twice, and the page's set names exactly those in flight.\<close>
  "pageInvariant p \<longleftrightarrow>
     distinct (inFlight p) \<and> set (inFlight p) = executingWorkflows (page_state p)"

subsection \<open>Sample data\<close>

definition demoFile :: File where
  "demoFile = \<lparr>file_name = ''doc.pdf''\<rparr>"

definition demoUpload :: UploadResult where
  "demoUpload =
     \<lparr>upload_id = ''f1'', upload_name = ''doc.pdf'', upload_size = 1024,
      upload_extension = ''pdf'', upload_mime_type = ''application/pdf'',
      upload_created_by = ''user-123'', upload_created_at = 1700000000,
      upload_file = None\<rparr>"

definition readyState :: DemoState where
  \<comment> \<open>A workflow key is entered and \<open>doc.pdf\<close> has been uploaded as \<open>f1\<close>.\<close>
  "readyState =
     run [ChangeWorkflowApiKey ''app-key'', UploadSucceeded demoUpload demoFile] initialState"

definition pendingState :: DemoState where
  \<comment> \<open>\<open>executeWorkflow\<close> has been called for \<open>f1\<close> and the gateway has not answered.\<close>
  "pendingState = run [ExecuteCalled ''f1''] readyState"

definition failedState :: DemoState where
  \<comment> \<open>From \<open>readyState\<close>, a whole call for \<open>f1\<close> during which \<open>fetch\<close> rejects.\<close>
  "failedState = executeWorkflow ''f1'' 5123 5124 (FetchRejected OtherValue) readyState"

definition failedRecord :: WorkflowResult where
  "failedRecord =
     \<lparr>wf_id = JStr (''failed_'' @ decimal 5123), wf_file_id = ''f1'', wf_status = Failed,
      wf_result = None, wf_created_at = 5, wf_error = Some workflowErrorText\<rparr>"

definition completedRecord :: WorkflowResult where
  "completedRecord =
     \<lparr>wf_id = JStr ''run-1'', wf_file_id = ''f1'', wf_status = Completed,
      wf_result = Some (JObj [(''workflow_run_id'', JStr ''run-1'')]),
      wf_created_at = 5, wf_error = None\<rparr>"

definition completedEvents :: "event list" where
  \<comment> \<open>Enter a key, upload \<open>doc.pdf\<close>, press the run button, and the gateway answers with a body.\<close>
  "completedEvents =
     [ChangeWorkflowApiKey ''app-key'', UploadSucceeded demoUpload demoFile,
      ExecuteCalled ''f1'',
      GatewaySettled ''f1'' 5123 5124 (Parsed (JObj [(''workflow_run_id'', JStr ''run-1'')]))]"

definition completedState :: DemoState where
  "completedState = run completedEvents initialState"

definition judgementOf :: "code_units \<Rightarrow> JudgementItem" where
  "judgementOf status =
     \<lparr>original_item = ''req1'',
      assessment = \<lparr>compliance_status = status, reasoning = ''ok'',
                    alternative_solution = None, reference_source = None,
                    assessment_type = None\<rparr>\<rparr>"

section \<open>Properties of the compliance statistics\<close>

lemma tally_snoc: "tally (ks @ [k]) = countStatus (tally ks) k"
  by (simp add: tally_def)

lemma complianceStats_tally: "complianceStats judgement = tally (statuses judgement)"
  by (simp add: complianceStats_def tally_def statuses_def foldl_map)

lemma proto_not_function: "units ''__proto__'' \<notin> set objectPrototypeFunctions"
  by (simp add: objectPrototypeFunctions_def units_def)

lemma map_of_tally:
  "map_of (tally ks) k =
     (if k \<notin> set ks \<or> k = units ''__proto__'' then None
      else if k \<in> set objectPrototypeFunctions then Some (FunctionText (count_list ks k))
      else Some (Num (count_list ks k)))"
proof (induction ks rule: rev_induct)
  case Nil
  show ?case by (simp add: tally_def)
next
  case (snoc x xs)
  show ?case
  proof (cases "x = k")
    case True
    with snoc show ?thesis
      by (auto simp: tally_snoc countStatus_def update_conv' count_list_0_iff)
  next
    case False
    with snoc show ?thesis
      by (auto simp: tally_snoc countStatus_def update_conv' split: option.splits jsval.splits)
  qed
qed

lemma totalCount_update_fresh:
  "map_of acc k = None \<Longrightarrow> totalCount (AList.update k v acc) = totalCount acc + countOf v"
  by (induction acc) (auto simp: totalCount_def split: if_splits)

lemma totalCount_update_own:
  "map_of acc k = Some w \<Longrightarrow>
   totalCount (AList.update k v acc) + countOf w = totalCount acc + countOf v"
  by (induction acc) (auto simp: totalCount_def split: if_splits)

lemma totalCount_countStatus:
  "totalCount (countStatus (tally ks) k) =
     totalCount (tally ks) + (if k \<in> set objectPrototypeNames then 0 else 1)"
proof (cases "map_of (tally ks) k")
  case None
  then show ?thesis
    by (auto simp: countStatus_def totalCount_update_fresh countOf_def objectPrototypeNames_def)
next
  case (Some w)
  show ?thesis
  proof (cases w)
    case (Num n)
    with Some have "k \<notin> set objectPrototypeNames"
      by (auto simp: map_of_tally objectPrototypeNames_def split: if_splits)
    moreover from Some Num
    have "totalCount (AList.update k (Num (n + 1)) (tally ks)) + countOf (Num n)
            = totalCount (tally ks) + countOf (Num (n + 1))"
      by (simp add: totalCount_update_own)
    ultimately show ?thesis using Some Num
      by (simp add: countStatus_def countOf_def)
  next
    case (FunctionText m)
    with Some have "k \<in> set objectPrototypeNames"
      by (auto simp: map_of_tally objectPrototypeNames_def split: if_splits)
    moreover from Some FunctionText
    have "totalCount (AList.update k (FunctionText (m + 1)) (tally ks)) + countOf (FunctionText m)
            = totalCount (tally ks) + countOf (FunctionText (m + 1))"
      by (simp add: totalCount_update_own)
    ultimately show ?thesis using Some FunctionText
      by (simp add: countStatus_def countOf_def)
  qed
qed

lemma totalCount_tally:
  "totalCount (tally ks) = length (filter (\<lambda>k. k \<notin> set objectPrototypeNames) ks)"
proof (induction ks rule: rev_induct)
  case Nil
  show ?case by (simp add: tally_def totalCount_def)
next
  case (snoc x xs)
  then show ?case by (simp add: tally_snoc totalCount_countStatus)
qed

lemma distinct_tally: "distinct (map fst (tally ks))"
proof (induction ks rule: rev_induct)
  case Nil
  show ?case by (simp add: tally_def)
next
  case (snoc x xs)
  then show ?case
    by (auto simp: tally_snoc countStatus_def distinct_update split: option.splits jsval.splits)
qed



lemma complianceStats_counts:
  "k \<notin> set objectPrototypeNames \<Longrightarrow>
   map_of (complianceStats judgement) k =
     (if k \<in> set (statuses judgement)
      then Some (Num (count_list (statuses judgement) k)) else None)"
  by (simp add: complianceStats_tally map_of_tally objectPrototypeNames_def)

lemma complianceStats_total:
  "totalCount (complianceStats judgement) =
     length (filter (\<lambda>item. compliance_status (assessment item) \<notin> set objectPrototypeNames)
               judgement)"
  by (simp add: complianceStats_tally totalCount_tally statuses_def filter_map comp_def)

lemma declared_statuses_not_inherited:
  "statusCompliant \<notin> set objectPrototypeNames"
  "statusPartial \<notin> set objectPrototypeNames"
  "statusNonCompliant \<notin> set objectPrototypeNames"
  by (simp_all add: objectPrototypeNames_def objectPrototypeFunctions_def units_def
      statusCompliant_def statusPartial_def statusNonCompliant_def)

lemma set_objectEntries: "set (objectEntries acc) = set acc"
  by (auto simp: objectEntries_def)

lemma objectEntries_Nil: "objectEntries [] = []"
  by (simp add: objectEntries_def)

lemma objectEntries_order_example:
  "map fst (objectEntries [(units ''b'', Num 1), (units ''10'', Num 1), (units ''2'', Num 1),
                           (units ''01'', Num 1)])
     = [units ''2'', units ''10'', units ''b'', units ''01'']"
  by (simp add: objectEntries_def isArrayIndex_def digitsValue_def units_def)

section \<open>Properties of the string functions\<close>

lemma dropWhile_rev_dropWhile_Nil:
  "dropWhile P (rev (dropWhile P s)) = [] \<longleftrightarrow> dropWhile P s = []"
proof
  assume a: "dropWhile P (rev (dropWhile P s)) = []"
  show "dropWhile P s = []"
  proof (rule ccontr)
    assume ne: "dropWhile P s \<noteq> []"
    then have "\<not> P (hd (dropWhile P s))" by (rule hd_dropWhile)
    moreover from ne have "hd (dropWhile P s) \<in> set (rev (dropWhile P s))" by simp
    moreover from a have "\<forall>x \<in> set (rev (dropWhile P s)). P x"
      by (simp only: dropWhile_eq_Nil_conv)
    ultimately show False by blast
  qed
next
  assume e: "dropWhile P s = []"
  show "dropWhile P (rev (dropWhile P s)) = []" unfolding e by simp
qed

lemma trim_Nil_iff: "trim s = [] \<longleftrightarrow> (\<forall>c \<in> set s. isWhiteSpace c)"
proof -
  have "trim s = [] \<longleftrightarrow> dropWhile isWhiteSpace s = []"
    unfolding trim_def by (simp only: rev_is_Nil_conv dropWhile_rev_dropWhile_Nil)
  then show ?thesis by (simp only: dropWhile_eq_Nil_conv)
qed

lemma split_not_Nil: "split d s \<noteq> []"
  by (induction s) (auto split: list.splits)

lemma split_single_iff: "tl (split d s) = [] \<longleftrightarrow> d \<notin> set s"
  by (induction s) (auto simp: split_not_Nil split: list.splits)

lemma takeWhile_snoc_stop: "\<not> P d \<Longrightarrow> takeWhile P (xs @ [d]) = takeWhile P xs"
  by (induction xs) auto

lemma takeWhile_rev_all:
  "d \<notin> set cs \<Longrightarrow>
   takeWhile (\<lambda>c. c \<noteq> d) (rev cs @ ys) = rev cs @ takeWhile (\<lambda>c. c \<noteq> d) ys"
  by (rule takeWhile_append2) auto

lemma takeWhile_rev_some:
  "d \<in> set cs \<Longrightarrow>
   takeWhile (\<lambda>c. c \<noteq> d) (rev cs @ ys) = takeWhile (\<lambda>c. c \<noteq> d) (rev cs)"
  by (rule takeWhile_append1 [of d]) auto

lemma takeWhile_rev_whole:
  "d \<notin> set cs \<Longrightarrow> rev (takeWhile (\<lambda>c. c \<noteq> d) (rev cs)) = cs"
proof -
  assume "d \<notin> set cs"
  then have "takeWhile (\<lambda>c. c \<noteq> d) (rev cs) = rev cs"
    by (intro takeWhile_eq_all_conv [THEN iffD2]) auto
  then show ?thesis by (simp only: rev_rev_ident)
qed

lemma last_split: "last (split d s) = rev (takeWhile (\<lambda>c. c \<noteq> d) (rev s))"
proof (induction s)
  case Nil
  show ?case by simp
next
  case (Cons c cs)
  show ?case
  proof (cases "c = d")
    case True
    then show ?thesis using Cons by (simp add: split_not_Nil takeWhile_snoc_stop)
  next
    case False
    obtain seg segs where sp: "split d cs = seg # segs"
      using split_not_Nil [of d cs] by (cases "split d cs") auto
    show ?thesis
    proof (cases "d \<in> set cs")
      case True
      then have "segs \<noteq> []" using split_single_iff [of d cs] sp by simp
      then show ?thesis using Cons sp False True by (simp add: takeWhile_rev_some)
    next
      case nin: False
      then have "segs = []" using split_single_iff [of d cs] sp by simp
      then show ?thesis using Cons sp False nin
        by (simp add: takeWhile_rev_all takeWhile_rev_whole)
    qed
  qed
qed

lemma validateFile_accepts_iff:
  "validateFile file = None \<longleftrightarrow>
     toLowerCase (rev (takeWhile (\<lambda>c. c \<noteq> CHR ''.'') (rev (file_name file))))
       \<in> set supportedFormats"
proof -
  have "[] \<notin> set supportedFormats" by (simp add: supportedFormats_def)
  then show ?thesis
    by (auto simp: validateFile_def pop_def split_not_Nil last_split Let_def)
qed

lemma validateFile_message:
  "validateFile file = Some m \<Longrightarrow>
   m = unsupportedFormatText @ ''png, jpg, jpeg, webp, gif, pdf''"
  by (auto simp: validateFile_def Let_def supportedFormats_def split: if_splits)

lemma validateFile_examples:
  "validateFile \<lparr>file_name = ''a.PDF''\<rparr> = None"
  "validateFile \<lparr>file_name = ''archive.tar.gz''\<rparr> \<noteq> None"
  "validateFile \<lparr>file_name = ''photo.final.JPeG''\<rparr> = None"
  "validateFile \<lparr>file_name = ''README''\<rparr> \<noteq> None"
  "validateFile \<lparr>file_name = ''a.''\<rparr> \<noteq> None"
  by code_simp+


section \<open>Properties of the workflow functions\<close>

lemma executeWorkflow_start_accepts:
  assumes "trim (workflowApiKey s) \<noteq> []"
    and "find (\<lambda>result. upload_id result = fileId) (uploadResults s) = Some u"
    and "upload_file u = Some file"
  shows "executeWorkflow_start fileId s =
           (s\<lparr>executingWorkflows := insert fileId (executingWorkflows s), error := None\<rparr>,
            Some \<lparr>authorization = ''Bearer '' @ workflowApiKey s, upload_file_id = fileId,
                  request_user = userId s\<rparr>)"
  using assms by (simp add: executeWorkflow_start_def)

lemma find_None_image: "find (\<lambda>r. f r = k) xs = None \<longleftrightarrow> k \<notin> f ` set xs"
  by (auto simp: find_None_iff)

lemma executeWorkflow_start_rejects:
  assumes "trim (workflowApiKey s) = [] \<or> fileId \<notin> upload_id ` set (uploadResults s)"
  shows "\<exists>m. m \<noteq> [] \<and> executeWorkflow_start fileId s = (s\<lparr>error := Some m\<rparr>, None)"
proof (cases "trim (workflowApiKey s) = []")
  case True
  then show ?thesis
    by (intro exI [of _ missingWorkflowKeyText])
       (simp add: executeWorkflow_start_def missingWorkflowKeyText_def)
next
  case False
  with assms have "find (\<lambda>result. upload_id result = fileId) (uploadResults s) = None"
    by (simp add: find_None_image)
  with False show ?thesis
    by (intro exI [of _ fileNotFoundText])
       (simp add: executeWorkflow_start_def fileNotFoundText_def)
qed

lemma executeWorkflow_start_cases:
  "(\<exists>m. m \<noteq> [] \<and> executeWorkflow_start fileId s = (s\<lparr>error := Some m\<rparr>, None)) \<or>
   (\<exists>request. upload_file_id request = fileId \<and>
      executeWorkflow_start fileId s =
        (s\<lparr>executingWorkflows := insert fileId (executingWorkflows s), error := None\<rparr>,
         Some request))"
  by (auto simp: executeWorkflow_start_def missingWorkflowKeyText_def fileNotFoundText_def
      split: option.splits)

lemma tryBlock_Parsed:
  "result \<noteq> JNull \<Longrightarrow>
   tryBlock fileId now_id now_created (Parsed result) =
     Inr \<lparr>wf_id = (case getProp result ''workflow_run_id'' of
                     None \<Rightarrow> JStr (''workflow_'' @ decimal now_id)
                   | Some v \<Rightarrow> if truthy v then v else JStr (''workflow_'' @ decimal now_id)),
          wf_file_id = fileId, wf_status = Completed, wf_result = Some result,
          wf_created_at = now_created div 1000, wf_error = None\<rparr>"
  by (cases result) simp_all

lemma tryBlock_Inr:
  "tryBlock fileId now_id now_created outcome = Inr r \<Longrightarrow>
   wf_file_id r = fileId \<and> wf_status r = Completed \<and> wf_error r = None \<and>
   (\<exists>result. outcome = Parsed result \<and> result \<noteq> JNull \<and> wf_result r = Some result)"
  by (induction fileId now_id now_created outcome rule: tryBlock.induct) auto

lemma tryBlock_Inl:
  assumes "\<forall>result. outcome = Parsed result \<longrightarrow> result = JNull"
  shows "\<exists>e. tryBlock fileId now_id now_created outcome = Inl e"
proof (cases "tryBlock fileId now_id now_created outcome")
  case (Inl e)
  then show ?thesis by blast
next
  case (Inr r)
  with assms show ?thesis using tryBlock_Inr [OF Inr] by blast
qed

lemma decimal_not_Nil: "decimal n \<noteq> []"
  by (subst decimal.simps) simp


lemma find_Some_rowRendered:
  "find (\<lambda>result. upload_id result = fileId) (uploadResults s) = Some u \<Longrightarrow>
   rowRendered s fileId"
  by (auto simp: rowRendered_def find_Some_iff intro!: image_eqI [where x = u])

lemma executeWorkflow_settle_Inl:
  "tryBlock fileId now_id now_created outcome = Inl e \<Longrightarrow>
   executeWorkflow_settle fileId now_id now_created outcome s =
     s\<lparr>error := Some (thrownMessage e),
       workflowResults :=
         \<lparr>wf_id = JStr (''failed_'' @ decimal now_id), wf_file_id = fileId,
          wf_status = Failed, wf_result = None, wf_created_at = now_created div 1000,
          wf_error = Some (thrownMessage e)\<rparr> # workflowResults s,
       executingWorkflows := executingWorkflows s - {fileId}\<rparr>"
  by (simp add: executeWorkflow_settle_def)

lemma executeWorkflow_settle_Inr:
  "tryBlock fileId now_id now_created outcome = Inr r \<Longrightarrow>
   executeWorkflow_settle fileId now_id now_created outcome s =
     s\<lparr>workflowResults := r # workflowResults s,
       executingWorkflows := executingWorkflows s - {fileId}\<rparr>"
  by (simp add: executeWorkflow_settle_def)

lemma executeWorkflow_settle_appends:
  "\<exists>r. workflowResults (executeWorkflow_settle fileId now_id now_created outcome s)
          = r # workflowResults s \<and>
        wf_file_id r = fileId \<and> (wf_status r = Completed \<or> wf_status r = Failed)"
proof (cases "tryBlock fileId now_id now_created outcome")
  case (Inl e)
  then show ?thesis by (simp add: executeWorkflow_settle_Inl)
next
  case (Inr r)
  then show ?thesis using tryBlock_Inr [OF Inr] by (simp add: executeWorkflow_settle_Inr)
qed

lemma executeWorkflow_settle_keeps:
  "uploadResults (executeWorkflow_settle fileId now_id now_created outcome s) = uploadResults s"
  "workflowApiKey (executeWorkflow_settle fileId now_id now_created outcome s) = workflowApiKey s"
  "userId (executeWorkflow_settle fileId now_id now_created outcome s) = userId s"
  "executingWorkflows (executeWorkflow_settle fileId now_id now_created outcome s)
     = executingWorkflows s - {fileId}"
  by (simp_all add: executeWorkflow_settle_def split: sum.splits)

lemma executeWorkflow_start_keeps:
  "uploadResults (fst (executeWorkflow_start fileId s)) = uploadResults s"
  "workflowResults (fst (executeWorkflow_start fileId s)) = workflowResults s"
  "workflowApiKey (fst (executeWorkflow_start fileId s)) = workflowApiKey s"
  by (simp_all add: executeWorkflow_start_def split: option.splits)

lemma step_append_only:
  "suffix (uploadResults s) (uploadResults (step e s)) \<and>
   suffix (workflowResults s) (workflowResults (step e s))"
proof (cases e)
  case (UploadSucceeded result upload)
  then show ?thesis by (simp add: handleUploadSuccess_def suffix_ConsI)
next
  case (GatewaySettled fileId now_id now_created outcome)
  obtain r where "workflowResults (executeWorkflow_settle fileId now_id now_created outcome s)
                    = r # workflowResults s"
    using executeWorkflow_settle_appends by blast
  with GatewaySettled show ?thesis
    by (simp add: executeWorkflow_settle_keeps suffix_ConsI)
qed (simp_all add: handleUploadError_def executeWorkflow_start_keeps)

lemma run_append_only:
  "suffix (uploadResults s) (uploadResults (run events s)) \<and>
   suffix (workflowResults s) (workflowResults (run events s))"
proof (induction events rule: rev_induct)
  case Nil
  show ?case by (simp add: run_def)
next
  case (snoc e events)
  have "run (events @ [e]) s = step e (run events s)" by (simp add: run_def)
  with snoc step_append_only [of "run events s" e] show ?case
    by (auto intro: suffix_order.trans)
qed

lemma actionCell_executing:
  "fileId \<in> executingWorkflows s \<Longrightarrow> actionCell s fileId = ExecutingDisabled"
  by (simp add: actionCell_def)

lemma offersExecute_not_executing:
  "offersExecute (actionCell s fileId) \<Longrightarrow> fileId \<notin> executingWorkflows s"
  by (auto simp: actionCell_def offersExecute_def)


lemma pageStep_execute_offered:
  assumes "rowRendered (page_state p) fileId"
    and "offersExecute (actionCell (page_state p) fileId)"
  shows "pageStep (ExecuteCalled fileId) p =
           (case executeWorkflow_start fileId (page_state p) of
              (s', None) \<Rightarrow> p\<lparr>page_state := s'\<rparr>
            | (s', Some request) \<Rightarrow>
                \<lparr>page_state = s', inFlight = upload_file_id request # inFlight p\<rparr>)"
  using assms by (simp add: pageStep_def)

lemma pageStep_execute_not_offered:
  "\<not> (rowRendered (page_state p) fileId \<and> offersExecute (actionCell (page_state p) fileId))
   \<Longrightarrow> pageStep (ExecuteCalled fileId) p = p"
  by (auto simp: pageStep_def)

lemma pageStep_settled:
  "pageStep (GatewaySettled fileId now_id now_created outcome) p =
     (if fileId \<in> set (inFlight p)
      then \<lparr>page_state =
              executeWorkflow_settle fileId now_id now_created outcome (page_state p),
            inFlight = remove1 fileId (inFlight p)\<rparr>
      else p)"
  by (simp add: pageStep_def)

lemma pageStep_invariant:
  assumes "pageInvariant p"
  shows "pageInvariant (pageStep e p)"
proof (cases e)
  case (ExecuteCalled fileId)
  show ?thesis
  proof (cases "rowRendered (page_state p) fileId \<and>
                offersExecute (actionCell (page_state p) fileId)")
    case True
    then have fresh: "fileId \<notin> executingWorkflows (page_state p)"
      by (simp add: offersExecute_not_executing)
    from True have unfold: "pageStep e p =
           (case executeWorkflow_start fileId (page_state p) of
              (s', None) \<Rightarrow> p\<lparr>page_state := s'\<rparr>
            | (s', Some request) \<Rightarrow>
                \<lparr>page_state = s', inFlight = upload_file_id request # inFlight p\<rparr>)"
      unfolding ExecuteCalled by (simp add: pageStep_execute_offered)
    from executeWorkflow_start_cases [of fileId "page_state p"]
    show ?thesis
    proof (elim disjE exE conjE)
      fix m
      assume "executeWorkflow_start fileId (page_state p)
                = ((page_state p)\<lparr>error := Some m\<rparr>, None)"
      then have "pageStep e p = p\<lparr>page_state := (page_state p)\<lparr>error := Some m\<rparr>\<rparr>"
        by (simp add: unfold)
      with assms show ?thesis by (simp add: pageInvariant_def)
    next
      fix request
      assume "upload_file_id request = fileId"
        and "executeWorkflow_start fileId (page_state p)
               = ((page_state p)\<lparr>executingWorkflows :=
                                   insert fileId (executingWorkflows (page_state p)),
                                 error := None\<rparr>, Some request)"
      then have "pageStep e p =
          \<lparr>page_state = (page_state p)\<lparr>executingWorkflows :=
                                         insert fileId (executingWorkflows (page_state p)),
                                       error := None\<rparr>,
           inFlight = fileId # inFlight p\<rparr>"
        by (simp add: unfold)
      with assms fresh show ?thesis by (simp add: pageInvariant_def)
    qed
  next
    case False
    then have "pageStep e p = p"
      unfolding ExecuteCalled by (rule pageStep_execute_not_offered)
    with assms show ?thesis by simp
  qed
next
  case (GatewaySettled fileId now_id now_created outcome)
  show ?thesis
  proof (cases "fileId \<in> set (inFlight p)")
    case True
    with assms show ?thesis
      unfolding GatewaySettled
      by (simp add: pageStep_settled pageInvariant_def executeWorkflow_settle_keeps)
  next
    case False
    with assms show ?thesis
      unfolding GatewaySettled by (simp add: pageStep_settled)
  qed
next
  case (ChangeApiKey v)
  with assms show ?thesis by (simp add: pageStep_def pageInvariant_def)
next
  case (ChangeWorkflowApiKey v)
  with assms show ?thesis by (simp add: pageStep_def pageInvariant_def)
next
  case (ChangeUserId v)
  with assms show ?thesis by (simp add: pageStep_def pageInvariant_def)
next
  case (UploadSucceeded result upload)
  with assms show ?thesis
    by (simp add: pageStep_def pageInvariant_def handleUploadSuccess_def)
next
  case (UploadFailed errorMessage)
  with assms show ?thesis
    by (simp add: pageStep_def pageInvariant_def handleUploadError_def)
next
  case AlertClosed
  with assms show ?thesis by (simp add: pageStep_def pageInvariant_def)
qed

lemma pageRun_invariant: "pageInvariant p \<Longrightarrow> pageInvariant (pageRun events p)"
proof (induction events rule: rev_induct)
  case Nil
  then show ?case by (simp add: pageRun_def)
next
  case (snoc e events)
  have "pageRun (events @ [e]) p = pageStep e (pageRun events p)" by (simp add: pageRun_def)
  with snoc show ?case by (simp add: pageStep_invariant)
qed

lemma initialPage_invariant: "pageInvariant initialPage"
  by (simp add: pageInvariant_def initialPage_def initialState_def)

section \<open>Sample states\<close>

lemma readyState_simp:
  "readyState = initialState\<lparr>workflowApiKey := ''app-key'',
       uploadResults := [demoUpload\<lparr>upload_file := Some demoFile\<rparr>]\<rparr>"
  by (simp add: readyState_def run_def handleUploadSuccess_def initialState_def)

lemma trim_app_key: "trim ''app-key'' = ''app-key''"
  by (simp add: trim_def isWhiteSpace_def)

lemma demoUpload_id: "upload_id demoUpload = ''f1''"
  by (simp add: demoUpload_def)

lemma pendingState_simp: "pendingState = readyState\<lparr>executingWorkflows := {''f1''}\<rparr>"
  by (simp add: pendingState_def run_def readyState_simp executeWorkflow_start_def
      initialState_def demoUpload_id trim_app_key)

lemma readyState_fields:
  "workflowApiKey readyState = ''app-key''"
  "userId readyState = ''user-123''"
  "uploadResults readyState = [demoUpload\<lparr>upload_file := Some demoFile\<rparr>]"
  "workflowResults readyState = []"
  "error readyState = None"
  "executingWorkflows readyState = {}"
  by (simp_all add: readyState_simp initialState_def)

lemma failedState_simp:
  "failedState = readyState\<lparr>workflowResults := [failedRecord], error := Some workflowErrorText\<rparr>"
  by (simp add: failedState_def failedRecord_def executeWorkflow_def executeWorkflow_start_def
      executeWorkflow_settle_def thrownMessage_def readyState_simp initialState_def
      trim_app_key demoUpload_id)

lemma failedState_fields:
  "workflowApiKey failedState = ''app-key''"
  "userId failedState = ''user-123''"
  "uploadResults failedState = [demoUpload\<lparr>upload_file := Some demoFile\<rparr>]"
  "workflowResults failedState = [failedRecord]"
  "error failedState = Some workflowErrorText"
  "executingWorkflows failedState = {}"
  by (simp_all add: failedState_simp readyState_fields)

lemma failedRecord_fields:
  "wf_file_id failedRecord = ''f1''"
  "wf_status failedRecord = Failed"
  "wf_result failedRecord = None"
  "wf_error failedRecord = Some workflowErrorText"
  by (simp_all add: failedRecord_def)

lemma completedState_simp:
  "completedState = readyState\<lparr>workflowResults := [completedRecord]\<rparr>"
  by (simp add: completedState_def completedEvents_def completedRecord_def run_def
      handleUploadSuccess_def executeWorkflow_start_def executeWorkflow_settle_def
      readyState_def initialState_def trim_app_key demoUpload_id)

lemma completedState_fields:
  "workflowApiKey completedState = ''app-key''"
  "userId completedState = ''user-123''"
  "uploadResults completedState = [demoUpload\<lparr>upload_file := Some demoFile\<rparr>]"
  "workflowResults completedState = [completedRecord]"
  "error completedState = None"
  "executingWorkflows completedState = {}"
  by (simp_all add: completedState_simp readyState_fields)

lemma completedRecord_fields:
  "wf_file_id completedRecord = ''f1''"
  "wf_status completedRecord = Completed"
  by (simp_all add: completedRecord_def)

lemma completedPage:
  "pageRun completedEvents initialPage = \<lparr>page_state = completedState, inFlight = []\<rparr>"
  by (simp add: completedState_simp completedEvents_def completedRecord_def pageRun_def
      pageStep_def initialPage_def rowRendered_def actionCell_def offersExecute_def
      getWorkflowResultForFile_def handleUploadSuccess_def executeWorkflow_start_def
      executeWorkflow_settle_def readyState_simp initialState_def trim_app_key demoUpload_id)

section \<open>The claims\<close>

subsection \<open>C1: one execution per file at a time\<close>

text \<open>
  C1, as the specification states it: a call of \<open>executeWorkflow\<close> for a file identity that
  is already pending is rejected and issues no second gateway call. It fails on the code:
  \<open>executeWorkflow\<close> never reads \<open>executingWorkflows\<close>. In \<open>pendingState\<close> the file \<open>f1\<close> is
  pending, and a further call for \<open>f1\<close> issues a request all the same.
\<close>

theorem second_call_while_pending_issues_request:
  "''f1'' \<in> executingWorkflows pendingState \<and>
   snd (executeWorkflow_start ''f1'' pendingState)
     = Some \<lparr>authorization = ''Bearer app-key'', upload_file_id = ''f1'',
             request_user = ''user-123''\<rparr>"
  by (simp add: pendingState_simp readyState_fields executeWorkflow_start_def trim_app_key
      demoUpload_id)

text \<open>
  C1, amended. The guard is the action cell of the page, not \<open>executeWorkflow\<close>:
  \<^item> on the page as its user drives it, from the initial page and after any events, no file
    identity is in flight twice, and \<open>executingWorkflows\<close> names exactly the identities in
    flight;
  \<^item> while a file identity is in \<open>executingWorkflows\<close> its action cell offers no button that
    calls \<open>executeWorkflow\<close>;
  \<^item> \<open>executeWorkflow\<close> itself, called with a workflow key that is not blank and a
    registered file, marks the identity pending and issues a request, whether or not
    the identity is pending already;
  \<^item> starting or settling a call for one file identity leaves the pending flag of every
    other identity as it was.
\<close>

theorem pending_guard_is_in_action_cell:
  "distinct (inFlight (pageRun events initialPage)) \<and>
   set (inFlight (pageRun events initialPage))
     = executingWorkflows (page_state (pageRun events initialPage)) \<and>
   (fileId \<in> executingWorkflows s \<longrightarrow> \<not> offersExecute (actionCell s fileId)) \<and>
   (trim (workflowApiKey s) \<noteq> [] \<and>
    find (\<lambda>result. upload_id result = fileId) (uploadResults s) = Some u \<and>
    upload_file u = Some file \<longrightarrow>
      executeWorkflow_start fileId s =
        (s\<lparr>executingWorkflows := insert fileId (executingWorkflows s), error := None\<rparr>,
         Some \<lparr>authorization = ''Bearer '' @ workflowApiKey s, upload_file_id = fileId,
               request_user = userId s\<rparr>)) \<and>
   (other \<noteq> fileId \<longrightarrow>
      (other \<in> executingWorkflows (fst (executeWorkflow_start fileId s))
         \<longleftrightarrow> other \<in> executingWorkflows s) \<and>
      (other \<in> executingWorkflows (executeWorkflow_settle fileId now_id now_created outcome s)
         \<longleftrightarrow> other \<in> executingWorkflows s))"
proof -
  have inv: "pageInvariant (pageRun events initialPage)"
    by (rule pageRun_invariant [OF initialPage_invariant])
  have cell: "fileId \<in> executingWorkflows s \<longrightarrow> \<not> offersExecute (actionCell s fileId)"
    using offersExecute_not_executing by blast
  have start: "trim (workflowApiKey s) \<noteq> [] \<and>
    find (\<lambda>result. upload_id result = fileId) (uploadResults s) = Some u \<and>
    upload_file u = Some file \<longrightarrow>
      executeWorkflow_start fileId s =
        (s\<lparr>executingWorkflows := insert fileId (executingWorkflows s), error := None\<rparr>,
         Some \<lparr>authorization = ''Bearer '' @ workflowApiKey s, upload_file_id = fileId,
               request_user = userId s\<rparr>)"
    using executeWorkflow_start_accepts by blast
  have other1: "other \<noteq> fileId \<longrightarrow>
      (other \<in> executingWorkflows (fst (executeWorkflow_start fileId s))
         \<longleftrightarrow> other \<in> executingWorkflows s)"
    using executeWorkflow_start_cases [of fileId s] by auto
  have other2: "other \<noteq> fileId \<longrightarrow>
      (other \<in> executingWorkflows (executeWorkflow_settle fileId now_id now_created outcome s)
         \<longleftrightarrow> other \<in> executingWorkflows s)"
    by (simp add: executeWorkflow_settle_keeps)
  from inv cell start other1 other2 show ?thesis
    unfolding pageInvariant_def by blast
qed

theorem pending_guard_is_in_action_cell_witness:
  "''f1'' \<in> executingWorkflows pendingState \<and>
   trim (workflowApiKey pendingState) \<noteq> [] \<and>
   find (\<lambda>result. upload_id result = ''f1'') (uploadResults pendingState)
     = Some (demoUpload\<lparr>upload_file := Some demoFile\<rparr>) \<and>
   ''f2'' \<noteq> ''f1'' \<and>
   \<not> offersExecute (actionCell pendingState ''f1'') \<and>
   snd (executeWorkflow_start ''f1'' pendingState) \<noteq> None \<and>
   ''f2'' \<notin> executingWorkflows (fst (executeWorkflow_start ''f1'' pendingState)) \<and>
   distinct (inFlight (pageRun [ChangeWorkflowApiKey ''app-key'',
       UploadSucceeded demoUpload demoFile, ExecuteCalled ''f1'', ExecuteCalled ''f1'']
       initialPage))"
  using pending_guard_is_in_action_cell
    [of "[ChangeWorkflowApiKey ''app-key'', UploadSucceeded demoUpload demoFile,
          ExecuteCalled ''f1'', ExecuteCalled ''f1'']"
        "''f1''" pendingState "demoUpload\<lparr>upload_file := Some demoFile\<rparr>" demoFile
        "''f2''" 0 0 "Parsed JNull"]
  by (simp add: pendingState_simp readyState_fields trim_app_key demoUpload_id)

subsection \<open>C2: every item is counted once\<close>

text \<open>
  C2 says that for every sequence of items, also with unrecognised status values, each
  item is counted once under its literal status, none is dropped, and the counts add up
  to the number of items. The reducer counts into the object literal \<open>{}\<close> and so misses
  the names that every object inherits. One item whose status is \<open>__proto__\<close> is dropped:
  the statistics stay empty and the counts add up to 0, not 1. One item whose status is
  \<open>constructor\<close> is entered with a text, not with the count 1.
\<close>

theorem proto_status_is_dropped:
  "complianceStats [judgementOf (units ''__proto__'')] = [] \<and>
   totalCount (complianceStats [judgementOf (units ''__proto__'')])
     \<noteq> length [judgementOf (units ''__proto__'')] \<and>
   complianceStats [judgementOf (units ''constructor'')]
     = [(units ''constructor'', FunctionText 1)]"
  by (simp add: complianceStats_def countStatus_def judgementOf_def totalCount_def
      objectPrototypeFunctions_def units_def)

text \<open>
  On the statuses that the interface declares the reducer is right, and so it is on every
  status that is not an inherited name (\<open>complianceStats_counts\<close>, \<open>complianceStats_total\<close>).
\<close>

lemma declared_statuses_are_counted:
  assumes "set (statuses judgement) \<subseteq> {statusCompliant, statusPartial, statusNonCompliant}"
  shows "totalCount (complianceStats judgement) = length judgement"
proof -
  have "filter (\<lambda>item. compliance_status (assessment item) \<notin> set objectPrototypeNames)
          judgement = judgement"
  proof (rule filter_True, rule ballI)
    fix item
    assume "item \<in> set judgement"
    then have "compliance_status (assessment item) \<in> set (statuses judgement)"
      by (simp add: statuses_def)
    with assms declared_statuses_not_inherited
    show "compliance_status (assessment item) \<notin> set objectPrototypeNames"
      by auto
  qed
  then show ?thesis by (simp add: complianceStats_total)
qed

lemma declared_statuses_example:
  "complianceStats [judgementOf statusCompliant, judgementOf statusNonCompliant,
                    judgementOf statusCompliant]
     = [(statusCompliant, Num 2), (statusNonCompliant, Num 1)]"
  by (simp add: complianceStats_def countStatus_def judgementOf_def units_def
      objectPrototypeFunctions_def statusCompliant_def statusNonCompliant_def)

subsection \<open>C3: the status inside the payload\<close>

text \<open>
  C3, as the specification states it: a payload whose status is not a definitive success
  does not lead to a completed record. It fails on the code: \<open>executeWorkflow\<close> never reads
  the status of the payload. A response that is ok and whose body says \<open>failed\<close> gives a
  record marked completed.
\<close>

theorem failed_payload_is_marked_completed:
  "map wf_status
     (workflowResults
        (executeWorkflow_settle ''f1'' 0 0 (Parsed (JObj [(''status'', JStr ''failed'')]))
           pendingState))
     = [Completed]"
  by (simp add: executeWorkflow_settle_def pendingState_simp readyState_fields)

text \<open>
  C3, amended. The record does not depend on the status inside the payload: every response
  that is ok and whose body parses to a value other than \<open>null\<close> adds a record that is
  marked completed and carries that payload, whatever the payload says, clears the pending
  flag of the file and leaves the error slot as it was. A record is marked failed only
  when the call throws, and such a record carries no payload.
\<close>

theorem record_ignores_payload_status:
  "(result \<noteq> JNull \<longrightarrow>
      (\<exists>r. executeWorkflow_settle fileId now_id now_created (Parsed result) s =
              s\<lparr>workflowResults := r # workflowResults s,
                executingWorkflows := executingWorkflows s - {fileId}\<rparr> \<and>
            wf_file_id r = fileId \<and> wf_status r = Completed \<and> wf_result r = Some result \<and>
            wf_error r = None)) \<and>
   (\<forall>r. workflowResults (executeWorkflow_settle fileId now_id now_created outcome s)
           = r # workflowResults s \<and> wf_status r = Failed \<longrightarrow> wf_result r = None)"
proof -
  have ok: "result \<noteq> JNull \<longrightarrow>
      (\<exists>r. executeWorkflow_settle fileId now_id now_created (Parsed result) s =
              s\<lparr>workflowResults := r # workflowResults s,
                executingWorkflows := executingWorkflows s - {fileId}\<rparr> \<and>
            wf_file_id r = fileId \<and> wf_status r = Completed \<and> wf_result r = Some result \<and>
            wf_error r = None)"
  proof
    assume "result \<noteq> JNull"
    then obtain r where built: "tryBlock fileId now_id now_created (Parsed result) = Inr r"
      by (simp add: tryBlock_Parsed)
    from tryBlock_Inr [OF built] executeWorkflow_settle_Inr [OF built, of s]
    show "\<exists>r. executeWorkflow_settle fileId now_id now_created (Parsed result) s =
              s\<lparr>workflowResults := r # workflowResults s,
                executingWorkflows := executingWorkflows s - {fileId}\<rparr> \<and>
            wf_file_id r = fileId \<and> wf_status r = Completed \<and> wf_result r = Some result \<and>
            wf_error r = None"
      by (intro exI [of _ r]) auto
  qed
  have failed: "\<forall>r. workflowResults (executeWorkflow_settle fileId now_id now_created outcome s)
           = r # workflowResults s \<and> wf_status r = Failed \<longrightarrow> wf_result r = None"
  proof (cases "tryBlock fileId now_id now_created outcome")
    case (Inl e)
    then show ?thesis by (auto simp: executeWorkflow_settle_Inl)
  next
    case (Inr r')
    then show ?thesis using tryBlock_Inr [OF Inr] by (auto simp: executeWorkflow_settle_Inr)
  qed
  from ok failed show ?thesis by blast
qed

theorem record_ignores_payload_status_witness:
  "JObj [(''status'', JStr ''stopped'')] \<noteq> JNull \<and>
   map (\<lambda>r. (wf_status r, wf_result r))
     (workflowResults
        (executeWorkflow_settle ''f1'' 0 0 (Parsed (JObj [(''status'', JStr ''stopped'')]))
           pendingState))
     = [(Completed, Some (JObj [(''status'', JStr ''stopped'')]))] \<and>
   map (\<lambda>r. (wf_status r, wf_result r))
     (workflowResults
        (executeWorkflow_settle ''f1'' 0 0 (FetchRejected OtherValue) pendingState))
     = [(Failed, None)]"
  using record_ignores_payload_status
    [of "JObj [(''status'', JStr ''stopped'')]" "''f1''" 0 0 pendingState
        "FetchRejected OtherValue"]
  by (simp add: executeWorkflow_settle_def pendingState_simp readyState_fields)

subsection \<open>C4: a gateway call that fails\<close>




subsection \<open>C5: a call that fails validation\<close>

text \<open>
  C5: when the workflow key is empty or consists of white space only, or when no uploaded
  file has the given identity, \<open>executeWorkflow\<close> puts a non-empty message into the error
  slot and does nothing else: it issues no request (\<open>None\<close>), and the state it leaves
  differs from the state it found in the error slot alone, so no record is added to
  \<open>workflowResults\<close> and no pending flag is set. The whole call ends there, whatever the
  gateway would have answered.
\<close>

theorem validation_failure_only_sets_error:
  assumes "(\<forall>c \<in> set (workflowApiKey s). isWhiteSpace c) \<or>
           fileId \<notin> upload_id ` set (uploadResults s)"
  shows "\<exists>m. m \<noteq> [] \<and>
           executeWorkflow_start fileId s = (s\<lparr>error := Some m\<rparr>, None) \<and>
           executeWorkflow fileId now_id now_created outcome s = s\<lparr>error := Some m\<rparr>"
proof -
  from assms have "trim (workflowApiKey s) = [] \<or> fileId \<notin> upload_id ` set (uploadResults s)"
    by (simp add: trim_Nil_iff)
  then obtain m where "m \<noteq> []"
    and "executeWorkflow_start fileId s = (s\<lparr>error := Some m\<rparr>, None)"
    using executeWorkflow_start_rejects by blast
  then show ?thesis by (auto simp: executeWorkflow_def)
qed

theorem validation_failure_only_sets_error_witness:
  "trim (workflowApiKey (readyState\<lparr>workflowApiKey := ''  ''\<rparr>)) = [] \<and>
   ''ghost'' \<notin> upload_id ` set (uploadResults readyState) \<and>
   executeWorkflow_start ''f1'' (readyState\<lparr>workflowApiKey := ''  ''\<rparr>)
     = (readyState\<lparr>workflowApiKey := ''  '', error := Some missingWorkflowKeyText\<rparr>, None) \<and>
   executeWorkflow_start ''ghost'' readyState
     = (readyState\<lparr>error := Some fileNotFoundText\<rparr>, None)"
  using validation_failure_only_sets_error
    [of "readyState\<lparr>workflowApiKey := ''  ''\<rparr>" "''f1''" 0 0 "Parsed JNull"]
    validation_failure_only_sets_error [of readyState "''ghost''" 0 0 "Parsed JNull"]
  by (simp add: readyState_fields demoUpload_id isWhiteSpace_def executeWorkflow_start_def
      trim_def trim_app_key)

subsection \<open>C6: histories only grow\<close>

text \<open>
  C6, as the specification states it: running a file again is always permitted after a
  terminal state, after a success as after a failure. It fails on the page. The only
  calls of \<open>executeWorkflow\<close> are the click handlers of the two buttons of the action cell,
  and once the latest record of a file is completed the cell shows the completed chip and
  neither button. After \<open>doc.pdf\<close> has been run with success, a further attempt to run it
  changes nothing: no request is issued and no record is added.
\<close>

theorem no_rerun_is_offered_after_success:
  "map wf_status (workflowResults completedState) = [Completed] \<and>
   actionCell completedState ''f1'' = CompletedChip \<and>
   pageRun (completedEvents @ [ExecuteCalled ''f1'']) initialPage
     = \<lparr>page_state = completedState, inFlight = []\<rparr>"
proof -
  have cell: "actionCell completedState ''f1'' = CompletedChip"
    by (simp add: actionCell_def getWorkflowResultForFile_def completedState_fields
        completedRecord_fields)
  have "pageRun (completedEvents @ [ExecuteCalled ''f1'']) initialPage
          = pageStep (ExecuteCalled ''f1'') (pageRun completedEvents initialPage)"
    by (simp add: pageRun_def)
  also have "\<dots> = \<lparr>page_state = completedState, inFlight = []\<rparr>"
    by (simp add: completedPage pageStep_def cell offersExecute_def)
  finally show ?thesis
    by (simp add: cell completedState_fields completedRecord_fields)
qed

text \<open>
  C6, amended. The upload history and the execution history are append-only: whatever
  events happen on the page, in any order, the uploads and the records that were there
  before are still there afterwards, unchanged and in their order, behind whatever has
  been added; every settled gateway call adds exactly one record for its file, completed
  or failed, in front of the records that were there. \<open>executeWorkflow\<close> itself places no
  condition on the history of the file: called with a workflow key that is not blank and
  the upload in place it issues a request, and the whole call adds one new record for the
  file and leaves all earlier records as they were. On the page, running a file again is
  offered after a failure and not after a success: while the latest record of a file that
  is not pending is failed, its action cell holds the retry button, and pressing it
  starts a new run; once the latest record is completed, the cell holds no button and an
  attempt to run the file leaves the page as it is.
\<close>

theorem histories_are_append_only:
  "suffix (uploadResults s) (uploadResults (run events s)) \<and>
   suffix (workflowResults s) (workflowResults (run events s)) \<and>
   (\<exists>r. workflowResults (executeWorkflow_settle fileId now_id now_created outcome s)
           = r # workflowResults s \<and>
         wf_file_id r = fileId \<and> (wf_status r = Completed \<or> wf_status r = Failed)) \<and>
   uploadResults (executeWorkflow_settle fileId now_id now_created outcome s)
     = uploadResults s \<and>
   (trim (workflowApiKey s) \<noteq> [] \<and>
    find (\<lambda>result. upload_id result = fileId) (uploadResults s) = Some u \<and>
    upload_file u = Some file \<longrightarrow>
      snd (executeWorkflow_start fileId s) \<noteq> None \<and>
      (\<exists>r. workflowResults (executeWorkflow fileId now_id now_created outcome s)
              = r # workflowResults s \<and>
            wf_file_id r = fileId \<and> (wf_status r = Completed \<or> wf_status r = Failed)) \<and>
      (fileId \<notin> executingWorkflows s \<and> getWorkflowResultForFile s fileId = Some latest \<and>
       wf_status latest = Failed \<longrightarrow>
         pageStep (ExecuteCalled fileId) \<lparr>page_state = s, inFlight = pending\<rparr> =
           \<lparr>page_state = s\<lparr>executingWorkflows := insert fileId (executingWorkflows s),
                            error := None\<rparr>,
            inFlight = fileId # pending\<rparr>)) \<and>
   (getWorkflowResultForFile s fileId = Some latest \<and> wf_status latest = Completed \<longrightarrow>
      \<not> offersExecute (actionCell s fileId) \<and>
      pageStep (ExecuteCalled fileId) \<lparr>page_state = s, inFlight = pending\<rparr>
        = \<lparr>page_state = s, inFlight = pending\<rparr>)"
proof -
  note grow = run_append_only [of s events]
  note settle = executeWorkflow_settle_appends [of fileId now_id now_created outcome s]
  have uploads: "uploadResults (executeWorkflow_settle fileId now_id now_created outcome s)
     = uploadResults s"
    by (simp add: executeWorkflow_settle_keeps)
  have again: "snd (executeWorkflow_start fileId s) \<noteq> None \<and>
      (\<exists>r. workflowResults (executeWorkflow fileId now_id now_created outcome s)
              = r # workflowResults s \<and>
            wf_file_id r = fileId \<and> (wf_status r = Completed \<or> wf_status r = Failed)) \<and>
      (fileId \<notin> executingWorkflows s \<and> getWorkflowResultForFile s fileId = Some latest \<and>
       wf_status latest = Failed \<longrightarrow>
         pageStep (ExecuteCalled fileId) \<lparr>page_state = s, inFlight = pending\<rparr> =
           \<lparr>page_state = s\<lparr>executingWorkflows := insert fileId (executingWorkflows s),
                            error := None\<rparr>,
            inFlight = fileId # pending\<rparr>)"
    if ready: "trim (workflowApiKey s) \<noteq> []"
      "find (\<lambda>result. upload_id result = fileId) (uploadResults s) = Some u"
      "upload_file u = Some file"
  proof -
    define s1 where
      "s1 = s\<lparr>executingWorkflows := insert fileId (executingWorkflows s), error := None\<rparr>"
    have start: "executeWorkflow_start fileId s =
        (s1, Some \<lparr>authorization = ''Bearer '' @ workflowApiKey s,
                   upload_file_id = fileId, request_user = userId s\<rparr>)"
      unfolding s1_def using ready by (rule executeWorkflow_start_accepts)
    have same: "workflowResults s1 = workflowResults s" by (simp add: s1_def)
    have direct: "snd (executeWorkflow_start fileId s) \<noteq> None \<and>
      (\<exists>r. workflowResults (executeWorkflow fileId now_id now_created outcome s)
              = r # workflowResults s \<and>
            wf_file_id r = fileId \<and> (wf_status r = Completed \<or> wf_status r = Failed))"
      using executeWorkflow_settle_appends [of fileId now_id now_created outcome s1]
      by (simp add: start executeWorkflow_def same)
    have rendered: "rowRendered s fileId"
      using ready(2) by (rule find_Some_rowRendered)
    have retry: "pageStep (ExecuteCalled fileId) \<lparr>page_state = s, inFlight = pending\<rparr> =
           \<lparr>page_state = s1, inFlight = fileId # pending\<rparr>"
      if "fileId \<notin> executingWorkflows s"
        and "getWorkflowResultForFile s fileId = Some latest"
        and "wf_status latest = Failed"
    proof -
      from that have "offersExecute (actionCell s fileId)"
        by (simp add: actionCell_def offersExecute_def)
      with rendered show ?thesis
        by (simp add: pageStep_execute_offered start)
    qed
    from direct retry show ?thesis unfolding s1_def by blast
  qed
  have closed: "\<not> offersExecute (actionCell s fileId) \<and>
      pageStep (ExecuteCalled fileId) \<lparr>page_state = s, inFlight = pending\<rparr>
        = \<lparr>page_state = s, inFlight = pending\<rparr>"
    if "getWorkflowResultForFile s fileId = Some latest" and "wf_status latest = Completed"
  proof -
    from that have no: "\<not> offersExecute (actionCell s fileId)"
      by (simp add: actionCell_def offersExecute_def)
    then show ?thesis by (simp add: pageStep_execute_not_offered)
  qed
  from grow settle uploads again closed show ?thesis by blast
qed

theorem histories_are_append_only_witness:
  "trim (workflowApiKey failedState) \<noteq> [] \<and>
   find (\<lambda>result. upload_id result = ''f1'') (uploadResults failedState)
     = Some (demoUpload\<lparr>upload_file := Some demoFile\<rparr>) \<and>
   upload_file (demoUpload\<lparr>upload_file := Some demoFile\<rparr>) = Some demoFile \<and>
   ''f1'' \<notin> executingWorkflows failedState \<and>
   getWorkflowResultForFile failedState ''f1'' = Some failedRecord \<and>
   wf_status failedRecord = Failed \<and>
   inFlight (pageStep (ExecuteCalled ''f1'') \<lparr>page_state = failedState, inFlight = []\<rparr>)
     = [''f1''] \<and>
   map wf_status
     (workflowResults (executeWorkflow ''f1'' 7000 7001 (Parsed (JObj [])) failedState))
     = [Completed, Failed] \<and>
   suffix (workflowResults failedState)
     (workflowResults
        (run [ExecuteCalled ''f1'', GatewaySettled ''f1'' 7000 7001 (Parsed (JObj []))]
           failedState)) \<and>
   getWorkflowResultForFile completedState ''f1'' = Some completedRecord \<and>
   wf_status completedRecord = Completed \<and>
   pageStep (ExecuteCalled ''f1'') \<lparr>page_state = completedState, inFlight = []\<rparr>
     = \<lparr>page_state = completedState, inFlight = []\<rparr>"
  using histories_are_append_only
    [of failedState
        "[ExecuteCalled ''f1'', GatewaySettled ''f1'' 7000 7001 (Parsed (JObj []))]"
        "''f1''" 7000 7001 "Parsed (JObj [])"
        "demoUpload\<lparr>upload_file := Some demoFile\<rparr>" demoFile failedRecord "[]"]
    histories_are_append_only
    [of completedState "[]" "''f1''" 7000 7001 "Parsed (JObj [])"
        "demoUpload\<lparr>upload_file := Some demoFile\<rparr>" demoFile completedRecord "[]"]
  by (simp add: failedState_fields failedRecord_fields completedState_fields
      completedRecord_fields getWorkflowResultForFile_def executeWorkflow_def
      executeWorkflow_start_def executeWorkflow_settle_def trim_app_key demoUpload_id)

subsection \<open>C7: registering an upload\<close>

text \<open>
  C7, as the specification states it: registering a file whose identity is registered
  already is rejected, so the collection never holds two entries with one identity. It
  fails on the code: after the same upload result has arrived twice, the list holds two
  entries with the identity \<open>f1\<close>.
\<close>

theorem duplicate_id_is_registered_twice:
  "map upload_id
     (uploadResults (run [UploadSucceeded demoUpload demoFile,
                          UploadSucceeded demoUpload demoFile] initialState))
     = [''f1'', ''f1'']"
  by (simp add: run_def handleUploadSuccess_def initialState_def demoUpload_id)

text \<open>
  C7, amended. \<open>handleUploadSuccess\<close> puts every upload result in front of the list, most
  recent first, without looking at its identity; an entry with the same identity that is
  registered already stays in the list behind it, and a lookup by that identity finds
  the entry registered last.
\<close>

theorem register_prepends_without_id_check:
  "uploadResults (handleUploadSuccess result file s)
     = result\<lparr>upload_file := Some file\<rparr> # uploadResults s \<and>
   find (\<lambda>r. upload_id r = upload_id result) (uploadResults (handleUploadSuccess result file s))
     = Some (result\<lparr>upload_file := Some file\<rparr>)"
  by (simp add: handleUploadSuccess_def)

subsection \<open>C8: the empty judgement list\<close>

text \<open>
  C8, as the specification states it: for an empty item sequence the counts are all zero,
  nothing is raised, and the percentage is defined as 0. The last part fails on the code:
  for the empty list the view has no row, so no percentage is shown at all, and the
  expression of the source, were it evaluated for a count of 0 over 0 items, is \<open>NaN\<close>.
\<close>

theorem empty_list_has_no_percentage:
  "percentageView [] = [] \<and> percentage (Num 0) (length ([] :: JudgementItem list)) = NaN"
  by (simp add: percentageView_def complianceStats_def percentage_def objectEntries_Nil)

text \<open>
  C8, amended. For an empty item sequence the statistics have no entry (so no count is
  different from zero) and the percentage view has no row: no percentage is computed,
  none is defined as 0, and nothing is raised. The view never divides by zero: every row
  it shows belongs to a non-empty item sequence, its percentage is never infinite, and it
  is \<open>NaN\<close> only in a row whose status is the name of an inherited function.
\<close>

theorem percentage_never_divides_by_zero:
  "complianceStats [] = [] \<and> percentageView [] = [] \<and>
   ((status, count, p) \<in> set (percentageView judgement) \<longrightarrow>
      judgement \<noteq> [] \<and> p = percentage count (length judgement) \<and> p \<noteq> PosInfinity \<and>
      (p = NaN \<longrightarrow> status \<in> set objectPrototypeFunctions))"
proof -
  have empty: "complianceStats [] = []" "percentageView [] = []"
    by (simp_all add: percentageView_def complianceStats_def objectEntries_Nil)
  have row: "judgement \<noteq> [] \<and> p = percentage count (length judgement) \<and> p \<noteq> PosInfinity \<and>
      (p = NaN \<longrightarrow> status \<in> set objectPrototypeFunctions)"
    if mem: "(status, count, p) \<in> set (percentageView judgement)"
  proof -
    from mem have own: "(status, count) \<in> set (complianceStats judgement)"
      and p: "p = percentage count (length judgement)"
      by (auto simp: percentageView_def set_objectEntries)
    from own empty(1) have ne: "judgement \<noteq> []" by auto
    from own have "map_of (complianceStats judgement) status = Some count"
      by (simp add: complianceStats_tally distinct_tally)
    then have shape: "(\<exists>c. count = Num c) \<and> status \<notin> set objectPrototypeFunctions \<or>
                      (\<exists>m. count = FunctionText m) \<and> status \<in> set objectPrototypeFunctions"
      by (auto simp: complianceStats_tally map_of_tally split: if_splits)
    from ne p shape show ?thesis
      by (auto simp: percentage_def)
  qed
  from empty row show ?thesis by blast
qed

theorem percentage_never_divides_by_zero_witness:
  "(statusCompliant, Num 2, Rounded 2 3)
     \<in> set (percentageView [judgementOf statusCompliant, judgementOf statusPartial,
                              judgementOf statusCompliant]) \<and>
   [judgementOf statusCompliant, judgementOf statusPartial, judgementOf statusCompliant]
     \<noteq> [] \<and>
   Rounded 2 3 \<noteq> PosInfinity \<and>
   (units ''toString'', FunctionText 1, NaN)
     \<in> set (percentageView [judgementOf (units ''toString'')]) \<and>
   units ''toString'' \<in> set objectPrototypeFunctions"
  using percentage_never_divides_by_zero
    [of statusCompliant "Num 2" "Rounded 2 3"
        "[judgementOf statusCompliant, judgementOf statusPartial,
          judgementOf statusCompliant]"]
    percentage_never_divides_by_zero
    [of "units ''toString''" "FunctionText 1" NaN "[judgementOf (units ''toString'')]"]
  by (simp add: percentageView_def set_objectEntries complianceStats_def countStatus_def
      judgementOf_def percentage_def objectPrototypeFunctions_def units_def
      statusCompliant_def statusPartial_def)

subsection \<open>C9: the error slot\<close>

text \<open>
  C9, as the specification states it: the error message is cleared on the next successful
  action and only then. It fails on the code in both directions. Closing the alert clears
  the message although nothing has succeeded; and a workflow run that completes
  successfully does not clear a message that appeared while it was pending.
\<close>

theorem error_slot_cleared_without_success:
  "error (run [UploadFailed ''too large''] initialState) = Some ''too large'' \<and>
   error (run [UploadFailed ''too large'', AlertClosed] initialState) = None \<and>
   error (run [UploadFailed ''too large'', GatewaySettled ''f1'' 0 0 (Parsed (JObj []))]
            pendingState) = Some ''too large''"
  by (simp add: run_def handleUploadError_def executeWorkflow_settle_def)

text \<open>
  C9, amended. The page holds one error message at a time. The slot is cleared by an
  upload that succeeds, by a call of \<open>executeWorkflow\<close> that passes validation (at its
  start, before the gateway is called), and by closing the alert; it is overwritten by a
  failed upload, by a call that fails validation and by a gateway call that fails; a
  gateway call that succeeds and a change of a text field leave it as it is. A failed
  record stays in the history whatever happens afterwards, and while it is the latest
  record of a file that is not pending, the action cell of the file shows the failure
  together with a button that runs the workflow again.
\<close>

theorem error_slot_and_retry:
  "error (handleUploadSuccess result file s) = None \<and>
   error (step AlertClosed s) = None \<and>
   error (handleUploadError message s) = Some message \<and>
   error (step (ChangeApiKey v) s) = error s \<and>
   error (step (ChangeWorkflowApiKey v) s) = error s \<and>
   error (step (ChangeUserId v) s) = error s \<and>
   (snd (executeWorkflow_start fileId s) \<noteq> None \<longrightarrow>
      error (fst (executeWorkflow_start fileId s)) = None) \<and>
   (snd (executeWorkflow_start fileId s) = None \<longrightarrow>
      (\<exists>m. m \<noteq> [] \<and> error (fst (executeWorkflow_start fileId s)) = Some m)) \<and>
   (payload \<noteq> JNull \<longrightarrow>
      error (executeWorkflow_settle fileId now_id now_created (Parsed payload) s) = error s) \<and>
   ((\<forall>payload. outcome = Parsed payload \<longrightarrow> payload = JNull) \<longrightarrow>
      (\<exists>m. error (executeWorkflow_settle fileId now_id now_created outcome s) = Some m \<and>
           wf_error (hd (workflowResults
                           (executeWorkflow_settle fileId now_id now_created outcome s)))
             = Some m)) \<and>
   (r \<in> set (workflowResults s) \<longrightarrow> r \<in> set (workflowResults (run events s))) \<and>
   (fileId \<notin> executingWorkflows s \<and> getWorkflowResultForFile s fileId = Some r \<and>
    wf_status r = Failed \<longrightarrow>
      actionCell s fileId = FailedChipWithRetry \<and> offersExecute (actionCell s fileId))"
proof -
  have clear: "error (handleUploadSuccess result file s) = None"
    "error (step AlertClosed s) = None"
    "error (handleUploadError message s) = Some message"
    "error (step (ChangeApiKey v) s) = error s"
    "error (step (ChangeWorkflowApiKey v) s) = error s"
    "error (step (ChangeUserId v) s) = error s"
    by (simp_all add: handleUploadSuccess_def handleUploadError_def)
  have start: "(snd (executeWorkflow_start fileId s) \<noteq> None \<longrightarrow>
      error (fst (executeWorkflow_start fileId s)) = None) \<and>
   (snd (executeWorkflow_start fileId s) = None \<longrightarrow>
      (\<exists>m. m \<noteq> [] \<and> error (fst (executeWorkflow_start fileId s)) = Some m))"
    using executeWorkflow_start_cases [of fileId s] by auto
  have settled: "payload \<noteq> JNull \<longrightarrow>
      error (executeWorkflow_settle fileId now_id now_created (Parsed payload) s) = error s"
    by (simp add: executeWorkflow_settle_def tryBlock_Parsed)
  have failed: "(\<forall>payload. outcome = Parsed payload \<longrightarrow> payload = JNull) \<longrightarrow>
      (\<exists>m. error (executeWorkflow_settle fileId now_id now_created outcome s) = Some m \<and>
           wf_error (hd (workflowResults
                           (executeWorkflow_settle fileId now_id now_created outcome s)))
             = Some m)"
  proof
    assume "\<forall>payload. outcome = Parsed payload \<longrightarrow> payload = JNull"
    then obtain e where "tryBlock fileId now_id now_created outcome = Inl e"
      using tryBlock_Inl by blast
    then show "\<exists>m. error (executeWorkflow_settle fileId now_id now_created outcome s) = Some m \<and>
           wf_error (hd (workflowResults
                           (executeWorkflow_settle fileId now_id now_created outcome s)))
             = Some m"
      by (simp add: executeWorkflow_settle_Inl)
  qed
  have kept: "r \<in> set (workflowResults s) \<longrightarrow> r \<in> set (workflowResults (run events s))"
    using run_append_only [of s events] set_mono_suffix by blast
  have retry: "fileId \<notin> executingWorkflows s \<and> getWorkflowResultForFile s fileId = Some r \<and>
    wf_status r = Failed \<longrightarrow>
      actionCell s fileId = FailedChipWithRetry \<and> offersExecute (actionCell s fileId)"
    by (simp add: actionCell_def offersExecute_def)
  from clear start settled failed kept retry show ?thesis by blast
qed

theorem error_slot_and_retry_witness:
  "snd (executeWorkflow_start ''f1'' failedState) \<noteq> None \<and>
   error (fst (executeWorkflow_start ''f1'' failedState)) = None \<and>
   snd (executeWorkflow_start ''ghost'' failedState) = None \<and>
   error (fst (executeWorkflow_start ''ghost'' failedState)) = Some fileNotFoundText \<and>
   JObj [] \<noteq> JNull \<and>
   error (executeWorkflow_settle ''f1'' 7000 7001 (Parsed (JObj [])) failedState)
     = Some workflowErrorText \<and>
   error (executeWorkflow_settle ''f1'' 7000 7001 (FetchRejected OtherValue) failedState)
     = Some workflowErrorText \<and>
   failedRecord \<in> set (workflowResults failedState) \<and>
   failedRecord \<in> set (workflowResults
     (run [ExecuteCalled ''f1'', GatewaySettled ''f1'' 7000 7001 (Parsed (JObj []))]
        failedState)) \<and>
   ''f1'' \<notin> executingWorkflows failedState \<and>
   getWorkflowResultForFile failedState ''f1'' = Some failedRecord \<and>
   wf_status failedRecord = Failed \<and>
   actionCell failedState ''f1'' = FailedChipWithRetry"
  using error_slot_and_retry
    [of demoUpload demoFile failedState "''too large''" "''key''" "''f1''" "JObj []"
        7000 7001 "FetchRejected OtherValue" failedRecord
        "[ExecuteCalled ''f1'', GatewaySettled ''f1'' 7000 7001 (Parsed (JObj []))]"]
    error_slot_and_retry
    [of demoUpload demoFile failedState "''too large''" "''key''" "''ghost''" "JObj []"
        7000 7001 "FetchRejected OtherValue" failedRecord "[]"]
  by (simp add: failedState_fields failedRecord_fields executeWorkflow_start_def
      executeWorkflow_settle_def getWorkflowResultForFile_def thrownMessage_def
      trim_app_key demoUpload_id fileNotFoundText_def)

subsection \<open>C10: which file names are accepted\<close>

text \<open>
  C10 says that a file is accepted exactly when the text after the last dot of its name,
  in lower case, is one of the six supported formats, and that a name without an
  extension is therefore rejected. The code takes the last element of \<open>name.split('.')\<close>,
  which for a name without a dot is the whole name: the file named \<open>pdf\<close>, which has no
  dot and so no extension, is accepted.
\<close>

theorem extensionless_name_accepted:
  "CHR ''.'' \<notin> set ''pdf'' \<and> validateFile \<lparr>file_name = ''pdf''\<rparr> = None"
  by (simp add: validateFile_def pop_def toLowerCase_def toLowerChar_def supportedFormats_def)

end
